theory Spec2Isabelle
  imports Main "HOL-Library.Word" "HOL-Library.Signed_Division"
begin

section \<open>Data model of the CloudWatch Logs log-group poller\<close>

text \<open>
  The poller lives in package \<open>aws\<close> of the snapshot poller. Go pointers are options
  (\<open>None\<close> is \<open>nil\<close>), slices are option lists (\<open>None\<close> is the nil slice), a Go result
  tuple is a HOL tuple with the error last, and a run that dereferences \<open>nil\<close> ends in
  \<open>Panics\<close> instead of returning.
\<close>

type_synonym int64 = "64 word"

text \<open>An error value of the provider, or one wrapped by \<open>errors.Wrap(err, msg)\<close>.\<close>

datatype error = AwsError string | Wrap error string

datatype 'a outcome = Returns 'a | Panics

type_synonym 'a slice = "'a list option"

text \<open>\<open>cloudwatchlogs.LogGroup\<close>: every member is a pointer.\<close>

record LogGroup =
  Arn :: "string option"
  CreationTime :: "int64 option"
  KmsKeyId :: "string option"
  LogGroupName :: "string option"
  MetricFilterCount :: "int64 option"
  RetentionInDays :: "int64 option"
  StoredBytes :: "int64 option"

record DescribeLogGroupsInput =
  LogGroupNamePrefix :: "string option"
  inNextToken :: "string option"

record DescribeLogGroupsOutput =
  LogGroups :: "LogGroup list"
  NextToken :: "string option"

type_synonym tags = "string \<rightharpoonup> string option"

text \<open>
  \<open>cloudwatchlogsiface.CloudWatchLogsAPI\<close>, restricted to the two requests the poller
  sends. A request answers with an error or with its output.
\<close>

record CloudWatchLogsAPI =
  DescribeLogGroups :: "DescribeLogGroupsInput \<Rightarrow> error + DescribeLogGroupsOutput"
  ListTagsLogGroup :: "string option \<Rightarrow> error + tags"

text \<open>\<open>arn.ARN\<close> and the poller's input and output records.\<close>

record ARN =
  arnPartition :: string
  arnService :: string
  arnRegion :: string
  arnAccountID :: string
  arnResource :: string

record ResourcePollerInput =
  AuthSourceParsedARN :: ARN
  IntegrationID :: "string option"
  pollerRegion :: "string option"
  NextPageToken :: "string option"

record ScanEntry =
  scanResourceID :: "string option"

text \<open>
  \<open>awsmodels.CloudWatchLogsLogGroup\<close> with its embedded \<open>GenericResource\<close> and
  \<open>GenericAWSResource\<close> flattened; \<open>'dt\<close> is the type \<open>utils.UnixTimeToDateTime\<close> returns.
\<close>

record 'dt CloudWatchLogsLogGroup =
  ResourceID :: "string option"
  ResourceType :: "string option"
  TimeCreated :: 'dt
  Name :: "string option"
  ARN :: "string option"
  AccountID :: "string option"
  Region :: "string option"
  Tags :: tags
  snapKmsKeyId :: "string option"
  snapMetricFilterCount :: "int64 option"
  snapRetentionInDays :: "int64 option"
  snapStoredBytes :: "int64 option"

record 'dt AddResourceEntry =
  Attributes :: "'dt CloudWatchLogsLogGroup"
  ID :: string
  entryIntegrationID :: string
  IntegrationType :: string
  Type :: string

text \<open>
  What the file uses and the package declares elsewhere: the batch ceiling
  \<open>defaultBatchSize\<close>, the client factory \<open>getClient\<close> (here already applied to
  \<open>CloudWatchLogsClientFunc\<close> and the service name, and returning a client of the
  interface whenever it returns no error), \<open>utils.UnixTimeToDateTime\<close>, and the two
  string constants of the models.
\<close>

record 'dt package =
  defaultBatchSize :: int
  getClient :: "ResourcePollerInput \<Rightarrow> string \<Rightarrow> error + CloudWatchLogsAPI"
  UnixTimeToDateTime :: "int64 \<Rightarrow> 'dt"
  CloudWatchLogGroupSchema :: string
  IntegrationTypeAws :: string

section \<open>Go primitives\<close>

text \<open>Division of \<open>int64\<close>: the quotient is truncated toward zero and wraps at 64 bits.\<close>

definition int64_div :: "int64 \<Rightarrow> int64 \<Rightarrow> int64" where
  "int64_div a b = word_of_int (sint a sdiv sint b)"

text \<open>\<open>append(s, xs...)\<close>: a nil slice stays nil when nothing is appended.\<close>

definition append_slice :: "'a slice \<Rightarrow> 'a list \<Rightarrow> 'a slice" where
  "append_slice s xs =
     (case s of None \<Rightarrow> (if xs = [] then None else Some xs) | Some ys \<Rightarrow> Some (ys @ xs))"

text \<open>The elements of a slice, as \<open>range\<close> visits them, and \<open>len\<close>.\<close>

definition elems :: "'a slice \<Rightarrow> 'a list" where
  "elems s = (case s of None \<Rightarrow> [] | Some xs \<Rightarrow> xs)"

definition len :: "'a slice \<Rightarrow> int" where
  "len s = int (length (elems s))"

text \<open>\<open>strings.TrimPrefix(s, prefix)\<close>.\<close>

definition TrimPrefix :: "string \<Rightarrow> string \<Rightarrow> string" where
  "TrimPrefix s p = (if take (length p) s = p then drop (length p) s else s)"

text \<open>\<open>strings.Split(s, ":")[0]\<close>: the text before the first colon, all of it without one.\<close>

definition SplitColonFirst :: "string \<Rightarrow> string" where
  "SplitColonFirst s = takeWhile (\<lambda>c. c \<noteq> CHR '':'') s"

section \<open>Single log group\<close>

definition getCloudWatchLogsClient ::
  "'dt package \<Rightarrow> ResourcePollerInput \<Rightarrow> string \<Rightarrow> error + CloudWatchLogsAPI" where
  "getCloudWatchLogsClient pkg pollerResourceInput region =
     (case getClient pkg pollerResourceInput region of
        Inl err \<Rightarrow> Inl err
      | Inr client \<Rightarrow> Inr client)"

text \<open>The \<open>range\<close> loop of \<open>getLogGroup\<close> over the groups the request returned.\<close>

fun findLogGroup :: "LogGroup list \<Rightarrow> string \<Rightarrow> (LogGroup option \<times> error option) outcome" where
  "findLogGroup [] logGroupName = Returns (None, None)"
| "findLogGroup (logGroup # rest) logGroupName =
     (case LogGroupName logGroup of
        None \<Rightarrow> Panics
      | Some n \<Rightarrow>
          if n = logGroupName then Returns (Some logGroup, None)
          else findLogGroup rest logGroupName)"

definition getLogGroup ::
  "CloudWatchLogsAPI \<Rightarrow> string \<Rightarrow> (LogGroup option \<times> error option) outcome" where
  "getLogGroup svc logGroupName =
     (case DescribeLogGroups svc
             \<lparr>LogGroupNamePrefix = Some logGroupName, inNextToken = None\<rparr> of
        Inl err \<Rightarrow> Returns (None, Some (Wrap err ''CloudWatchLogs.DescribeLogGroups''))
      | Inr logGroups \<Rightarrow> findLogGroup (LogGroups logGroups) logGroupName)"

definition listTagsLogGroup ::
  "CloudWatchLogsAPI \<Rightarrow> string option \<Rightarrow> tags \<times> error option" where
  "listTagsLogGroup svc groupName =
     (case ListTagsLogGroup svc groupName of
        Inl err \<Rightarrow> (Map.empty, Some (Wrap err ''CloudWatchLogs ListTagsLogGroup''))
      | Inr t \<Rightarrow> (t, None))"

definition buildCloudWatchLogsLogGroupSnapshot ::
  "'dt package \<Rightarrow> CloudWatchLogsAPI \<Rightarrow> LogGroup \<Rightarrow>
     ('dt CloudWatchLogsLogGroup option \<times> error option) outcome" where
  "buildCloudWatchLogsLogGroupSnapshot pkg svc logGroup =
     (case CreationTime logGroup of
        None \<Rightarrow> Panics
      | Some creationTime \<Rightarrow>
          (let logGroupSnapshot =
                 \<lparr>ResourceID = Arn logGroup,
                  ResourceType = Some (CloudWatchLogGroupSchema pkg),
                  TimeCreated = UnixTimeToDateTime pkg (int64_div creationTime 1000),
                  Name = LogGroupName logGroup,
                  ARN = Arn logGroup,
                  AccountID = None,
                  Region = None,
                  Tags = Map.empty,
                  snapKmsKeyId = KmsKeyId logGroup,
                  snapMetricFilterCount = MetricFilterCount logGroup,
                  snapRetentionInDays = RetentionInDays logGroup,
                  snapStoredBytes = StoredBytes logGroup\<rparr>
           in (case listTagsLogGroup svc (Name logGroupSnapshot) of
                 (t, Some err) \<Rightarrow> Returns (None, Some err)
               | (t, None) \<Rightarrow> Returns (Some (logGroupSnapshot\<lparr>Tags := t\<rparr>), None))))"

text \<open>
  \<open>PollCloudWatchLogsLogGroup\<close> also writes the snapshot's ARN into the scan request, so
  the request is returned with the result.
\<close>

definition PollCloudWatchLogsLogGroup ::
  "'dt package \<Rightarrow> ResourcePollerInput \<Rightarrow> ARN \<Rightarrow> ScanEntry \<Rightarrow>
     (('dt CloudWatchLogsLogGroup option \<times> error option) \<times> ScanEntry) outcome" where
  "PollCloudWatchLogsLogGroup pkg pollerResourceInput resourceARN scanRequest =
     (case getCloudWatchLogsClient pkg pollerResourceInput (arnRegion resourceARN) of
        Inl err \<Rightarrow> Returns ((None, Some err), scanRequest)
      | Inr cwClient \<Rightarrow>
          (let lgResource = TrimPrefix (arnResource resourceARN) ''log-group:'';
               lgName = SplitColonFirst lgResource
           in (case getLogGroup cwClient lgName of
                 Panics \<Rightarrow> Panics
               | Returns (logGroup, err) \<Rightarrow>
                   (case (logGroup, err) of
                      (Some lg, None) \<Rightarrow>
                        (case buildCloudWatchLogsLogGroupSnapshot pkg cwClient lg of
                           Panics \<Rightarrow> Panics
                         | Returns (s, Some err') \<Rightarrow> Returns ((None, Some err'), scanRequest)
                         | Returns (None, None) \<Rightarrow> Panics
                         | Returns (Some snapshot, None) \<Rightarrow>
                             Returns
                               ((Some (snapshot\<lparr>Region := Some (arnRegion resourceARN),
                                               AccountID := Some (arnAccountID resourceARN)\<rparr>),
                                 None),
                                scanRequest\<lparr>scanResourceID := ARN snapshot\<rparr>))
                    | _ \<Rightarrow> Returns ((None, err), scanRequest)))))"

section \<open>Paginated enumeration\<close>

text \<open>
  The pagination loop of the SDK behind \<open>DescribeLogGroupsPages(input, fn)\<close>, a
  \<open>request.Pagination\<close> with \<open>EndPageOnSameToken\<close> set. It sends the request, keeps the
  tokens of the page before as \<open>prevTokens\<close> and those of the page just read as
  \<open>nextTokens\<close>, hands the page to \<open>fn\<close> together with \<open>lastPage\<close>, and sends the next
  request with the page's token while \<open>fn\<close> answers true and there is a next page. The
  tokens of a page are nil when its \<open>NextToken\<close> is nil or empty; there is a next page
  when they are not nil and differ from \<open>prevTokens\<close>, which are nil before the first
  request. A failed request ends the loop with its error. The callback's captured
  variables are the state \<open>s\<close>; a provider whose tokens never end makes the loop run
  forever, which is \<open>None\<close>.
\<close>

definition nextPageTokens :: "DescribeLogGroupsOutput \<Rightarrow> string option" where
  "nextPageTokens page =
     (case NextToken page of None \<Rightarrow> None | Some t \<Rightarrow> if t = [] then None else Some t)"

definition HasNextPage :: "string option \<Rightarrow> DescribeLogGroupsOutput \<Rightarrow> bool" where
  "HasNextPage prevTokens page =
     (nextPageTokens page \<noteq> None \<and> nextPageTokens page \<noteq> prevTokens)"

partial_function (option) Pagination ::
  "CloudWatchLogsAPI \<Rightarrow> (DescribeLogGroupsOutput \<Rightarrow> bool \<Rightarrow> 's \<Rightarrow> bool \<times> 's) \<Rightarrow>
     string option \<Rightarrow> string option \<Rightarrow> 's \<Rightarrow> (error option \<times> 's) option" where
  "Pagination svc fn prevTokens nextToken s =
     (case DescribeLogGroups svc \<lparr>LogGroupNamePrefix = None, inNextToken = nextToken\<rparr> of
        Inl err \<Rightarrow> Some (Some err, s)
      | Inr page \<Rightarrow>
          (case fn page (\<not> HasNextPage prevTokens page) s of
             (continue, s') \<Rightarrow>
               if continue \<and> HasNextPage prevTokens page
               then Pagination svc fn (nextPageTokens page) (nextPageTokens page) s'
               else Some (None, s')))"

definition DescribeLogGroupsPages ::
  "CloudWatchLogsAPI \<Rightarrow> (DescribeLogGroupsOutput \<Rightarrow> bool \<Rightarrow> 's \<Rightarrow> bool \<times> 's) \<Rightarrow>
     string option \<Rightarrow> 's \<Rightarrow> (error option \<times> 's) option" where
  "DescribeLogGroupsPages svc fn nextToken s = Pagination svc fn None nextToken s"

text \<open>
  The callback of \<open>describeLogGroups\<close>; its state is the pair of the named results
  \<open>logGroups\<close> and \<open>marker\<close> it assigns to.
\<close>

definition pageCallback ::
  "int \<Rightarrow> DescribeLogGroupsOutput \<Rightarrow> bool \<Rightarrow> LogGroup slice \<times> string option \<Rightarrow>
     bool \<times> LogGroup slice \<times> string option" where
  "pageCallback batchSize page lastPage st =
     (case st of (logGroups, marker) \<Rightarrow>
        (let logGroups' = append_slice logGroups (LogGroups page) in
         if len logGroups' \<ge> batchSize
         then (False, logGroups', if \<not> lastPage then NextToken page else marker)
         else (True, logGroups', marker)))"

definition describeLogGroups ::
  "'dt package \<Rightarrow> CloudWatchLogsAPI \<Rightarrow> string option \<Rightarrow>
     (LogGroup slice \<times> string option \<times> error option) option" where
  "describeLogGroups pkg cloudwatchLogsSvc nextMarker =
     (case DescribeLogGroupsPages cloudwatchLogsSvc (pageCallback (defaultBatchSize pkg))
             nextMarker (None, None) of
        None \<Rightarrow> None
      | Some (Some err, logGroups, marker) \<Rightarrow>
          Some (None, None, Some (Wrap err ''CloudWatchLogs.DescribeLogGroups''))
      | Some (None, logGroups, marker) \<Rightarrow> Some (logGroups, marker, None))"

section \<open>All log groups of an account\<close>

text \<open>
  The \<open>range\<close> loop of \<open>PollCloudWatchLogsLogGroups\<close>; \<open>resources\<close> is the slice built so
  far, made non-nil before the loop.
\<close>

fun snapshotLoop ::
  "'dt package \<Rightarrow> CloudWatchLogsAPI \<Rightarrow> ResourcePollerInput \<Rightarrow> string option \<Rightarrow>
     LogGroup list \<Rightarrow> 'dt AddResourceEntry list \<Rightarrow>
     ('dt AddResourceEntry slice \<times> string option \<times> error option) outcome" where
  "snapshotLoop pkg svc pollerInput marker [] resources = Returns (Some resources, marker, None)"
| "snapshotLoop pkg svc pollerInput marker (logGroup # rest) resources =
     (case buildCloudWatchLogsLogGroupSnapshot pkg svc logGroup of
        Panics \<Rightarrow> Panics
      | Returns (s, Some err) \<Rightarrow> Returns (None, None, Some err)
      | Returns (None, None) \<Rightarrow> Panics
      | Returns (Some snapshot, None) \<Rightarrow>
          (let logGroupSnapshot =
                 snapshot\<lparr>AccountID := Some (arnAccountID (AuthSourceParsedARN pollerInput)),
                          Region := pollerRegion pollerInput\<rparr>
           in (case ResourceID logGroupSnapshot of
                 None \<Rightarrow> Panics
               | Some resourceID \<Rightarrow>
                   (case IntegrationID pollerInput of
                      None \<Rightarrow> Panics
                    | Some integrationID \<Rightarrow>
                        snapshotLoop pkg svc pollerInput marker rest
                          (resources @
                             [\<lparr>Attributes = logGroupSnapshot,
                               ID = resourceID,
                               entryIntegrationID = integrationID,
                               IntegrationType = IntegrationTypeAws pkg,
                               Type = CloudWatchLogGroupSchema pkg\<rparr>])))))"

definition PollCloudWatchLogsLogGroups ::
  "'dt package \<Rightarrow> ResourcePollerInput \<Rightarrow>
     ('dt AddResourceEntry slice \<times> string option \<times> error option) outcome option" where
  "PollCloudWatchLogsLogGroups pkg pollerInput =
     (case pollerRegion pollerInput of
        None \<Rightarrow> Some Panics
      | Some region \<Rightarrow>
          (case getCloudWatchLogsClient pkg pollerInput region of
             Inl err \<Rightarrow> Some (Returns (None, None, Some err))
           | Inr cloudwatchLogGroupSvc \<Rightarrow>
               (case describeLogGroups pkg cloudwatchLogGroupSvc (NextPageToken pollerInput) of
                  None \<Rightarrow> None
                | Some (logGroups, marker, Some err) \<Rightarrow> Some (Returns (None, None, Some err))
                | Some (logGroups, marker, None) \<Rightarrow>
                    Some (snapshotLoop pkg cloudwatchLogGroupSvc pollerInput marker
                            (elems logGroups) []))))"

section \<open>Token-chained units\<close>

text \<open>
  The scheduler's side of a continuation token: a unit is run from a token, and while it
  returns a token a new unit is run from that one. The result is the list of the
  batches of the units, or the error of the unit that failed.
\<close>

partial_function (option) tokenChain ::
  "'dt package \<Rightarrow> CloudWatchLogsAPI \<Rightarrow> string option \<Rightarrow> (error + LogGroup list list) option" where
  "tokenChain pkg svc token =
     (case describeLogGroups pkg svc token of
        None \<Rightarrow> None
      | Some (logGroups, marker, Some err) \<Rightarrow> Some (Inl err)
      | Some (logGroups, None, None) \<Rightarrow> Some (Inr [elems logGroups])
      | Some (logGroups, Some t, None) \<Rightarrow>
          Option.bind (tokenChain pkg svc (Some t))
            (\<lambda>r. case r of
                   Inl err \<Rightarrow> Some (Inl err)
                 | Inr batches \<Rightarrow> Some (Inr (elems logGroups # batches))))"

text \<open>
  The pages a provider serves from a token on: each page answers the request for the
  token of the page before it, and every page but the last carries a token. The
  sequence is complete when its last page carries none.
\<close>

fun pageRun :: "CloudWatchLogsAPI \<Rightarrow> string option \<Rightarrow> DescribeLogGroupsOutput list \<Rightarrow> bool" where
  "pageRun svc token [] = True"
| "pageRun svc token (page # pages) =
     (DescribeLogGroups svc \<lparr>LogGroupNamePrefix = None, inNextToken = token\<rparr> = Inr page \<and>
      (pages = [] \<or> nextPageTokens page \<noteq> None \<and> pageRun svc (NextToken page) pages))"

definition pageSequence ::
  "CloudWatchLogsAPI \<Rightarrow> string option \<Rightarrow> DescribeLogGroupsOutput list \<Rightarrow> bool" where
  "pageSequence svc token pages =
     (pages \<noteq> [] \<and> pageRun svc token pages \<and> nextPageTokens (last pages) = None)"

definition items :: "DescribeLogGroupsOutput list \<Rightarrow> LogGroup list" where
  "items pages = concat (map LogGroups pages)"

text \<open>
  The pages one pagination loop reads, from the request for \<open>token\<close> on with \<open>prevTokens\<close>
  kept from before: after every page but the last the loop saw a next page. \<open>lastPage\<close>
  is the flag the loop hands to the callback with the last of the pages.
\<close>

fun servedRun ::
  "CloudWatchLogsAPI \<Rightarrow> string option \<Rightarrow> string option \<Rightarrow> DescribeLogGroupsOutput list \<Rightarrow> bool" where
  "servedRun svc prevTokens token [] = True"
| "servedRun svc prevTokens token (page # pages) =
     (DescribeLogGroups svc \<lparr>LogGroupNamePrefix = None, inNextToken = token\<rparr> = Inr page \<and>
      (pages = [] \<or>
       HasNextPage prevTokens page \<and>
       servedRun svc (nextPageTokens page) (nextPageTokens page) pages))"

fun lastPage :: "string option \<Rightarrow> DescribeLogGroupsOutput list \<Rightarrow> bool" where
  "lastPage prevTokens [] = True"
| "lastPage prevTokens [page] = (\<not> HasNextPage prevTokens page)"
| "lastPage prevTokens (page # following # pages) =
     lastPage (nextPageTokens page) (following # pages)"

text \<open>
  What one run of the callback does over the pages it is handed, starting from the
  slice \<open>logGroups\<close>: the run ends after \<open>pages\<close> when the count stayed below the ceiling
  before the last of them, and the last one reaches the ceiling or is the last page; the
  marker it leaves is the last page's token when the ceiling is reached on a page that
  is not the last.
\<close>

definition stopsAfter ::
  "int \<Rightarrow> LogGroup slice \<Rightarrow> string option \<Rightarrow> DescribeLogGroupsOutput list \<Rightarrow> bool" where
  "stopsAfter batchSize logGroups prevTokens pages =
     (pages \<noteq> [] \<and>
      (butlast pages = [] \<or> len (append_slice logGroups (items (butlast pages))) < batchSize) \<and>
      (batchSize \<le> len (append_slice logGroups (items pages)) \<or> lastPage prevTokens pages))"

definition markerAfter ::
  "int \<Rightarrow> LogGroup slice \<Rightarrow> string option \<Rightarrow> DescribeLogGroupsOutput list \<Rightarrow>
     string option \<Rightarrow> string option" where
  "markerAfter batchSize logGroups prevTokens pages marker =
     (if batchSize \<le> len (append_slice logGroups (items pages)) \<and> \<not> lastPage prevTokens pages
      then NextToken (last pages) else marker)"

text \<open>
  A provider that serves \<open>pages\<close> from a token on and answers the request after them with
  the error \<open>err\<close>.
\<close>

definition failsAfter ::
  "CloudWatchLogsAPI \<Rightarrow> string option \<Rightarrow> DescribeLogGroupsOutput list \<Rightarrow> error \<Rightarrow> bool" where
  "failsAfter svc token pages err =
     (pageRun svc token pages \<and>
      (pages = [] \<or> nextPageTokens (last pages) \<noteq> None) \<and>
      DescribeLogGroups svc
        \<lparr>LogGroupNamePrefix = None,
         inNextToken = (if pages = [] then token else NextToken (last pages))\<rparr> = Inl err)"

section \<open>Test doubles\<close>

text \<open>
  Providers and a package for concrete runs, in the manner of the mocks of the package's
  tests: a provider holding a list of log groups that answers a request with the groups
  whose name starts with the requested prefix and refuses the tags of the listed names; a
  provider that answers each token from a table; and a package around a given ceiling and
  client, with the identity for the time conversion.
\<close>

definition mockLogGroup :: "string \<Rightarrow> int64 \<Rightarrow> LogGroup" where
  "mockLogGroup name created =
     \<lparr>Arn = Some (''arn:aws:logs:us-west-2:123456789012:log-group:'' @ name),
      CreationTime = Some created,
      KmsKeyId = None,
      LogGroupName = Some name,
      MetricFilterCount = Some 0,
      RetentionInDays = None,
      StoredBytes = Some 0\<rparr>"

definition hasPrefix :: "string option \<Rightarrow> LogGroup \<Rightarrow> bool" where
  "hasPrefix prefix g =
     (case prefix of
        None \<Rightarrow> True
      | Some p \<Rightarrow> (case LogGroupName g of None \<Rightarrow> False | Some n \<Rightarrow> take (length p) n = p))"

definition mockTags :: "string list \<Rightarrow> string option \<Rightarrow> error + tags" where
  "mockTags throttled name =
     (case name of
        None \<Rightarrow> Inl (AwsError ''InvalidParameterException'')
      | Some n \<Rightarrow>
          if n \<in> set throttled then Inl (AwsError ''ThrottlingException'')
          else Inr Map.empty)"

definition mockGroups :: "LogGroup list \<Rightarrow> string list \<Rightarrow> CloudWatchLogsAPI" where
  "mockGroups groups throttled =
     \<lparr>DescribeLogGroups =
        (\<lambda>input. Inr \<lparr>LogGroups = filter (hasPrefix (LogGroupNamePrefix input)) groups,
                       NextToken = None\<rparr>),
      ListTagsLogGroup = mockTags throttled\<rparr>"

definition mockPages ::
  "(string option \<times> (error + DescribeLogGroupsOutput)) list \<Rightarrow> string list \<Rightarrow>
     CloudWatchLogsAPI" where
  "mockPages table throttled =
     \<lparr>DescribeLogGroups =
        (\<lambda>input. case map_of table (inNextToken input) of
                    None \<Rightarrow> Inl (AwsError ''InvalidParameterException'')
                  | Some answer \<Rightarrow> answer),
      ListTagsLogGroup = mockTags throttled\<rparr>"

definition mockPackage :: "int \<Rightarrow> CloudWatchLogsAPI \<Rightarrow> int64 package" where
  "mockPackage batchSize client =
     \<lparr>defaultBatchSize = batchSize,
      getClient = (\<lambda>input region. Inr client),
      UnixTimeToDateTime = (\<lambda>seconds. seconds),
      CloudWatchLogGroupSchema = ''AWS.CloudWatch.LogGroup'',
      IntegrationTypeAws = ''aws''\<rparr>"

definition mockARN :: "string \<Rightarrow> ARN" where
  "mockARN resource =
     \<lparr>arnPartition = ''aws'', arnService = ''logs'', arnRegion = ''us-west-2'',
      arnAccountID = ''123456789012'', arnResource = resource\<rparr>"

definition mockInput :: "string option \<Rightarrow> ResourcePollerInput" where
  "mockInput token =
     \<lparr>AuthSourceParsedARN = mockARN ''role/PantherAuditRole'',
      IntegrationID = Some ''189cddfa-6fd5-419e-8b0e-668105b67dc0'',
      pollerRegion = Some ''us-west-2'',
      NextPageToken = token\<rparr>"

text \<open>
  A provider of four log groups in three pages, and one whose second page is throttled.
\<close>

definition mockTable :: "(string option \<times> (error + DescribeLogGroupsOutput)) list" where
  "mockTable =
     [(None, Inr \<lparr>LogGroups = [mockLogGroup ''/a'' 1000], NextToken = Some ''t1''\<rparr>),
      (Some ''t1'', Inr \<lparr>LogGroups = [mockLogGroup ''/b'' 2000, mockLogGroup ''/c'' 3000],
                         NextToken = Some ''t2''\<rparr>),
      (Some ''t2'', Inr \<lparr>LogGroups = [mockLogGroup ''/d'' 4000], NextToken = None\<rparr>)]"

definition mockThrottledTable :: "(string option \<times> (error + DescribeLogGroupsOutput)) list" where
  "mockThrottledTable =
     [(None, Inr \<lparr>LogGroups = [mockLogGroup ''/a'' 1000], NextToken = Some ''t1''\<rparr>),
      (Some ''t1'', Inl (AwsError ''ThrottlingException''))]"

text \<open>A provider that answers every request with one group and the same token.\<close>

definition mockRepeatingTable :: "(string option \<times> (error + DescribeLogGroupsOutput)) list" where
  "mockRepeatingTable =
     [(None, Inr \<lparr>LogGroups = [mockLogGroup ''/a'' 1000], NextToken = Some ''t''\<rparr>),
      (Some ''t'', Inr \<lparr>LogGroups = [mockLogGroup ''/a'' 1000], NextToken = Some ''t''\<rparr>)]"

section \<open>Lookup of a single log group\<close>

lemma findLogGroup_Some:
  "findLogGroup gs n = Returns (Some g, err) \<Longrightarrow>
     LogGroupName g = Some n \<and> err = None \<and> g \<in> set gs"
  by (induction gs) (auto split: option.splits if_splits)

lemma findLogGroup_none:
  "\<forall>g\<in>set gs. \<exists>n'. LogGroupName g = Some n' \<and> n' \<noteq> n \<Longrightarrow>
     findLogGroup gs n = Returns (None, None)"
  by (induction gs) auto

text \<open>
  C10. \<open>getLogGroup\<close> asks the provider for the groups whose name starts with the requested
  name. A group it returns carries exactly the requested name (and comes from the answer,
  with no error); and when the request succeeds and every returned group has another name,
  it returns nil and a nil error, not a group that only shares the prefix.
\<close>

theorem getLogGroup_exact_name:
  "(getLogGroup svc logGroupName = Returns (Some logGroup, err) \<longrightarrow>
      LogGroupName logGroup = Some logGroupName \<and> err = None \<and>
      (\<exists>out. DescribeLogGroups svc
                \<lparr>LogGroupNamePrefix = Some logGroupName, inNextToken = None\<rparr> = Inr out \<and>
             logGroup \<in> set (LogGroups out))) \<and>
   (DescribeLogGroups svc \<lparr>LogGroupNamePrefix = Some logGroupName, inNextToken = None\<rparr> =
      Inr out' \<and>
    (\<forall>g\<in>set (LogGroups out'). \<exists>n. LogGroupName g = Some n \<and> n \<noteq> logGroupName) \<longrightarrow>
      getLogGroup svc logGroupName = Returns (None, None))"
  by (auto simp: getLogGroup_def split: sum.splits
        dest: findLogGroup_Some intro: findLogGroup_none)

lemmas mock_defs = mockLogGroup_def hasPrefix_def mockTags_def mockGroups_def mockPages_def
  mockPackage_def mockARN_def mockInput_def

theorem getLogGroup_exact_name_witness:
  "getLogGroup (mockGroups [mockLogGroup ''/app/api-v2'' 1583020800123, mockLogGroup ''/app/api'' 1583020800999] []) ''/app/api''
     = Returns (Some (mockLogGroup ''/app/api'' 1583020800999), None) \<and>
   LogGroupName (mockLogGroup ''/app/api'' 1583020800999) = Some ''/app/api'' \<and>
   DescribeLogGroups (mockGroups [mockLogGroup ''/app/api-v2'' 1583020800123] [])
       \<lparr>LogGroupNamePrefix = Some ''/app/api'', inNextToken = None\<rparr>
     = Inr \<lparr>LogGroups = [mockLogGroup ''/app/api-v2'' 1583020800123], NextToken = None\<rparr> \<and>
   getLogGroup (mockGroups [mockLogGroup ''/app/api-v2'' 1583020800123] []) ''/app/api'' = Returns (None, None)"
proof -
  let ?svc = "mockGroups [mockLogGroup ''/app/api-v2'' 1583020800123, mockLogGroup ''/app/api'' 1583020800999] []"
  let ?gone = "mockGroups [mockLogGroup ''/app/api-v2'' 1583020800123] []"
  have found: "getLogGroup ?svc ''/app/api'' = Returns (Some (mockLogGroup ''/app/api'' 1583020800999), None)"
    by (simp add: getLogGroup_def mock_defs)
  have answer: "DescribeLogGroups ?gone \<lparr>LogGroupNamePrefix = Some ''/app/api'', inNextToken = None\<rparr>
     = Inr \<lparr>LogGroups = [mockLogGroup ''/app/api-v2'' 1583020800123], NextToken = None\<rparr>"
    by (simp add: mock_defs)
  have others: "\<forall>g\<in>set (LogGroups \<lparr>LogGroups = [mockLogGroup ''/app/api-v2'' 1583020800123], NextToken = None\<rparr>).
      \<exists>n. LogGroupName g = Some n \<and> n \<noteq> ''/app/api''"
    by (simp add: mock_defs)
  from getLogGroup_exact_name [of ?svc "''/app/api''" "mockLogGroup ''/app/api'' 1583020800999" None]
    found
  have name: "LogGroupName (mockLogGroup ''/app/api'' 1583020800999) = Some ''/app/api''"
    by blast
  from getLogGroup_exact_name [of ?gone "''/app/api''" _ _ "\<lparr>LogGroups = [mockLogGroup ''/app/api-v2'' 1583020800123], NextToken = None\<rparr>"]
    answer others
  have missing: "getLogGroup ?gone ''/app/api'' = Returns (None, None)"
    by blast
  from found name answer missing show ?thesis by blast
qed

text \<open>
  C5. When the client is obtained, the lookup for the name taken from the ARN succeeds and
  no returned group carries that name, \<open>PollCloudWatchLogsLogGroup\<close> returns a nil resource
  and a nil error, and leaves the scan request as it was.
\<close>

theorem PollCloudWatchLogsLogGroup_not_found:
  assumes "getCloudWatchLogsClient pkg pollerResourceInput (arnRegion resourceARN) = Inr cwClient"
    and "lgName = SplitColonFirst (TrimPrefix (arnResource resourceARN) ''log-group:'')"
    and "DescribeLogGroups cwClient \<lparr>LogGroupNamePrefix = Some lgName, inNextToken = None\<rparr> =
           Inr out"
    and "\<forall>g\<in>set (LogGroups out). \<exists>n. LogGroupName g = Some n \<and> n \<noteq> lgName"
  shows "PollCloudWatchLogsLogGroup pkg pollerResourceInput resourceARN scanRequest =
           Returns ((None, None), scanRequest)"
proof -
  have "getLogGroup cwClient lgName = Returns (None, None)"
    using assms(3,4) by (simp add: getLogGroup_def findLogGroup_none)
  with assms(1,2) show ?thesis
    by (simp add: PollCloudWatchLogsLogGroup_def Let_def)
qed

theorem PollCloudWatchLogsLogGroup_not_found_witness:
  "getCloudWatchLogsClient (mockPackage 100 (mockGroups [mockLogGroup ''/app/api-v2'' 1583020800123] []))
      (mockInput None) (arnRegion (mockARN ''log-group:/app/api:*'')) =
      Inr (mockGroups [mockLogGroup ''/app/api-v2'' 1583020800123] []) \<and>
   SplitColonFirst (TrimPrefix (arnResource (mockARN ''log-group:/app/api:*'')) ''log-group:'') = ''/app/api'' \<and>
   DescribeLogGroups (mockGroups [mockLogGroup ''/app/api-v2'' 1583020800123] [])
      \<lparr>LogGroupNamePrefix = Some ''/app/api'', inNextToken = None\<rparr> =
      Inr \<lparr>LogGroups = [mockLogGroup ''/app/api-v2'' 1583020800123], NextToken = None\<rparr> \<and>
   PollCloudWatchLogsLogGroup (mockPackage 100 (mockGroups [mockLogGroup ''/app/api-v2'' 1583020800123] []))
      (mockInput None) (mockARN ''log-group:/app/api:*'') \<lparr>scanResourceID = None\<rparr> =
      Returns ((None, None), \<lparr>scanResourceID = None\<rparr>)"
proof -
  let ?svc = "mockGroups [mockLogGroup ''/app/api-v2'' 1583020800123] []"
  let ?pkg = "mockPackage 100 ?svc :: int64 package"
  let ?out = "\<lparr>LogGroups = [mockLogGroup ''/app/api-v2'' 1583020800123], NextToken = None\<rparr>"
  have client: "getCloudWatchLogsClient ?pkg (mockInput None)
      (arnRegion (mockARN ''log-group:/app/api:*'')) = Inr ?svc"
    by (simp add: getCloudWatchLogsClient_def mockPackage_def)
  have name: "''/app/api'' =
      SplitColonFirst (TrimPrefix (arnResource (mockARN ''log-group:/app/api:*'')) ''log-group:'')"
    by (simp add: SplitColonFirst_def TrimPrefix_def mockARN_def)
  have answer: "DescribeLogGroups ?svc \<lparr>LogGroupNamePrefix = Some ''/app/api'', inNextToken = None\<rparr> = Inr ?out"
    by (simp add: mock_defs)
  have others: "\<forall>g\<in>set (LogGroups ?out). \<exists>n. LogGroupName g = Some n \<and> n \<noteq> ''/app/api''"
    by (simp add: mock_defs)
  from PollCloudWatchLogsLogGroup_not_found [OF client name answer others]
  have "PollCloudWatchLogsLogGroup ?pkg (mockInput None) (mockARN ''log-group:/app/api:*'')
      \<lparr>scanResourceID = None\<rparr> = Returns ((None, None), \<lparr>scanResourceID = None\<rparr>)" .
  with client name answer show ?thesis by simp
qed

section \<open>Creation time of a snapshot\<close>

lemma sint_int64_div_1000:
  "sint (int64_div ms 1000) = sgn (sint ms) * (\<bar>sint ms\<bar> div 1000)"
proof -
  have b: "- (2 ^ 63) \<le> sint ms" "sint ms < 2 ^ 63"
    using sint_ge [of ms] sint_lt [of ms] by simp_all
  define k where "k = sint ms"
  have q: "\<bar>k\<bar> div 1000 \<le> \<bar>k\<bar>" "0 \<le> \<bar>k\<bar> div 1000"
    using zdiv_mono2 [of "\<bar>k\<bar>" 1 1000] by simp_all
  have r: "- (2 ^ 63) \<le> k sdiv 1000" "k sdiv 1000 < 2 ^ 63"
    using b q unfolding k_def [symmetric] signed_divide_int_def
    by (auto simp: sgn_if)
  have "sint (word_of_int (k sdiv 1000) :: int64) = k sdiv 1000"
    using r by (simp add: sint_sbintrunc' signed_take_bit_int_eq_self)
  then show ?thesis
    by (simp add: int64_div_def k_def signed_divide_int_def)
qed

lemma int64_div_example: "int64_div 1583020800123 1000 = 1583020800"
  by (simp add: int64_div_def signed_divide_int_def)

text \<open>
  C6. Whenever a snapshot is built, the log group has a creation time in milliseconds and
  the snapshot's \<open>TimeCreated\<close> is \<open>UnixTimeToDateTime\<close> of that time divided by 1000,
  the quotient truncated toward zero; 1583020800123 milliseconds give 1583020800 seconds.
\<close>

theorem snapshot_TimeCreated_seconds:
  assumes "buildCloudWatchLogsLogGroupSnapshot pkg svc logGroup = Returns (Some snapshot, err)"
  shows "\<exists>ms. CreationTime logGroup = Some ms \<and>
           TimeCreated snapshot = UnixTimeToDateTime pkg (int64_div ms 1000) \<and>
           sint (int64_div ms 1000) = sgn (sint ms) * (\<bar>sint ms\<bar> div 1000) \<and>
           (ms = 1583020800123 \<longrightarrow> TimeCreated snapshot = UnixTimeToDateTime pkg 1583020800)"
proof (cases "CreationTime logGroup")
  case None
  with assms show ?thesis
    by (simp add: buildCloudWatchLogsLogGroupSnapshot_def)
next
  case (Some ms)
  with assms have "TimeCreated snapshot = UnixTimeToDateTime pkg (int64_div ms 1000)"
    by (auto simp: buildCloudWatchLogsLogGroupSnapshot_def Let_def
          split: prod.splits option.splits)
  with Some show ?thesis
    by (auto simp: sint_int64_div_1000 int64_div_example)
qed

theorem snapshot_TimeCreated_seconds_witness:
  "\<exists>snapshot.
     buildCloudWatchLogsLogGroupSnapshot (mockPackage 100 (mockGroups [] []))
       (mockGroups [] []) (mockLogGroup ''/app/api'' 1583020800123) =
       Returns (Some snapshot, None) \<and>
     TimeCreated snapshot = 1583020800 \<and>
     TimeCreated snapshot \<noteq> 1583020800123 \<and>
     TimeCreated snapshot \<noteq> 1583020801"
proof -
  let ?pkg = "mockPackage 100 (mockGroups [] []) :: int64 package"
  obtain snapshot where built:
    "buildCloudWatchLogsLogGroupSnapshot ?pkg (mockGroups [] [])
       (mockLogGroup ''/app/api'' 1583020800123) = Returns (Some snapshot, None)"
    by (simp add: buildCloudWatchLogsLogGroupSnapshot_def listTagsLogGroup_def mock_defs)
  have raw: "CreationTime (mockLogGroup ''/app/api'' 1583020800123) = Some 1583020800123"
    by (simp add: mock_defs)
  from snapshot_TimeCreated_seconds [OF built] raw
  have "TimeCreated snapshot = UnixTimeToDateTime ?pkg 1583020800"
    by auto
  then have "TimeCreated snapshot = 1583020800"
    by (simp add: mockPackage_def)
  with built show ?thesis by auto
qed

section \<open>The pagination loop under the callback\<close>

lemma elems_append_slice [simp]: "elems (append_slice s xs) = elems s @ xs"
  by (auto simp: elems_def append_slice_def split: option.splits)

lemma len_append_slice [simp]: "len (append_slice s xs) = len s + int (length xs)"
  by (simp add: len_def)

lemma append_slice_append [simp]:
  "append_slice (append_slice s xs) ys = append_slice s (xs @ ys)"
  by (auto simp: append_slice_def split: option.splits)

lemma append_slice_Nil [simp]: "append_slice s [] = s"
  by (auto simp: append_slice_def split: option.splits)

lemma elems_None [simp]: "elems None = []"
  by (simp add: elems_def)

lemma len_None [simp]: "len None = 0"
  by (simp add: len_def)

lemma items_simps [simp]:
  "items [] = []" "items (p # ps) = LogGroups p @ items ps"
  "items (ps @ qs) = items ps @ items qs"
  by (simp_all add: items_def)

lemma nextPageTokens_Some:
  "nextPageTokens page \<noteq> None \<Longrightarrow> nextPageTokens page = NextToken page"
  by (auto simp: nextPageTokens_def split: option.splits if_splits)

lemma lastPage_Cons:
  "pages \<noteq> [] \<Longrightarrow> lastPage prevTokens (page # pages) = lastPage (nextPageTokens page) pages"
  by (cases pages) simp_all

lemma pages_success_aux:
  "Pagination svc fn prev tok s = Some y \<Longrightarrow>
     \<forall>acc m lg mk. fn = pageCallback B \<longrightarrow> s = (acc, m) \<longrightarrow> y = (None, lg, mk) \<longrightarrow>
       (\<exists>pages. servedRun svc prev tok pages \<and> stopsAfter B acc prev pages \<and>
          lg = append_slice acc (items pages) \<and> mk = markerAfter B acc prev pages m)"
proof (induction rule: Pagination.raw_induct [rotated 1, consumes 1, case_names step])
  case (step f svc fn prev tok s y)
  show ?case
  proof (intro allI impI)
    fix acc m lg mk
    assume fn: "fn = pageCallback B" and s: "s = (acc, m)" and y: "y = (None, lg, mk)"
    note run = step.hyps
    from run y obtain page where
      page: "DescribeLogGroups svc \<lparr>LogGroupNamePrefix = None, inNextToken = tok\<rparr> = Inr page"
      by (auto split: sum.splits)
    let ?acc = "append_slice acc (LogGroups page)"
    let ?next = "nextPageTokens page"
    show "\<exists>pages. servedRun svc prev tok pages \<and> stopsAfter B acc prev pages \<and>
            lg = append_slice acc (items pages) \<and> mk = markerAfter B acc prev pages m"
    proof (cases "len ?acc < B \<and> HasNextPage prev page")
      case True
      with run page fn s have "f svc fn ?next ?next (?acc, m) = Some y"
        by (simp add: pageCallback_def Let_def)
      from step.IH [OF this] fn y
      obtain pages where ps: "servedRun svc ?next ?next pages" "stopsAfter B ?acc ?next pages"
        "lg = append_slice ?acc (items pages)" "mk = markerAfter B ?acc ?next pages m"
        by blast
      then have ne: "pages \<noteq> []" by (simp add: stopsAfter_def)
      have "servedRun svc prev tok (page # pages)"
        using page True ps(1) by simp
      moreover have "stopsAfter B acc prev (page # pages)"
        using ps(2) True ne by (auto simp: stopsAfter_def lastPage_Cons)
      moreover have "lg = append_slice acc (items (page # pages))"
        using ps(3) by simp
      moreover have "mk = markerAfter B acc prev (page # pages) m"
        using ps(4) ne by (simp add: markerAfter_def lastPage_Cons)
      ultimately show ?thesis by blast
    next
      case False
      with run page fn s y have y': "lg = ?acc"
        "mk = (if B \<le> len ?acc \<and> HasNextPage prev page then NextToken page else m)"
        by (auto simp: pageCallback_def Let_def split: if_splits)
      have "servedRun svc prev tok [page]" using page by simp
      moreover have "stopsAfter B acc prev [page]"
        using False by (auto simp: stopsAfter_def)
      moreover have "lg = append_slice acc (items [page])" using y' by simp
      moreover have "mk = markerAfter B acc prev [page] m"
        using y' by (simp add: markerAfter_def)
      ultimately show ?thesis by blast
    qed
  qed
qed

lemma pages_success:
  "Pagination svc (pageCallback B) prev tok (acc, m) = Some (None, lg, mk) \<Longrightarrow>
     \<exists>pages. servedRun svc prev tok pages \<and> stopsAfter B acc prev pages \<and>
       lg = append_slice acc (items pages) \<and> mk = markerAfter B acc prev pages m"
  using pages_success_aux by blast

lemma pages_run:
  "servedRun svc prev tok pages \<Longrightarrow> stopsAfter B acc prev pages \<Longrightarrow>
     Pagination svc (pageCallback B) prev tok (acc, m) =
       Some (None, append_slice acc (items pages), markerAfter B acc prev pages m)"
proof (induction pages arbitrary: prev tok acc)
  case Nil
  then show ?case by (simp add: stopsAfter_def)
next
  case (Cons page pages)
  let ?acc = "append_slice acc (LogGroups page)"
  let ?next = "nextPageTokens page"
  from Cons.prems have page:
    "DescribeLogGroups svc \<lparr>LogGroupNamePrefix = None, inNextToken = tok\<rparr> = Inr page"
    by simp
  show ?case
  proof (cases "pages = []")
    case True
    with Cons.prems page show ?thesis
      by (subst Pagination.simps)
         (auto simp: pageCallback_def Let_def stopsAfter_def markerAfter_def)
  next
    case False
    with Cons.prems have more: "HasNextPage prev page" "servedRun svc ?next ?next pages"
      and below: "len ?acc < B" and rest: "stopsAfter B ?acc ?next pages"
      by (auto simp: stopsAfter_def lastPage_Cons split: if_splits)
    have "Pagination svc (pageCallback B) prev tok (acc, m) =
        Pagination svc (pageCallback B) ?next ?next (?acc, m)"
      using page more(1) below
      by (subst Pagination.simps) (simp add: pageCallback_def Let_def)
    with Cons.IH [OF more(2) rest] False show ?thesis
      by (simp add: markerAfter_def lastPage_Cons)
  qed
qed

lemma describeLogGroups_success:
  assumes "describeLogGroups pkg svc token = Some (logGroups, marker, None)"
  shows "\<exists>pages. servedRun svc None token pages \<and>
           stopsAfter (defaultBatchSize pkg) None None pages \<and>
           logGroups = append_slice None (items pages) \<and>
           marker = markerAfter (defaultBatchSize pkg) None None pages None"
proof -
  from assms have
    "Pagination svc (pageCallback (defaultBatchSize pkg)) None token (None, None) =
       Some (None, logGroups, marker)"
    by (auto simp: describeLogGroups_def DescribeLogGroupsPages_def
          split: option.splits prod.splits)
  then show ?thesis by (rule pages_success)
qed

lemma describeLogGroups_run:
  "servedRun svc None token pages \<Longrightarrow> stopsAfter (defaultBatchSize pkg) None None pages \<Longrightarrow>
     describeLogGroups pkg svc token =
       Some (append_slice None (items pages),
             markerAfter (defaultBatchSize pkg) None None pages None, None)"
  by (simp add: describeLogGroups_def DescribeLogGroupsPages_def pages_run)

text \<open>
  A provider that ends its pages with a page without a token, or with a failed request,
  never serves a page whose token is the one it was requested with: it would serve that
  page for ever. So on such pages the loop sees a next page exactly when the page
  carries a token.
\<close>

lemma pageRun_same_token:
  "DescribeLogGroups svc \<lparr>LogGroupNamePrefix = None, inNextToken = token\<rparr> = Inr page \<Longrightarrow>
   NextToken page = token \<Longrightarrow> pageRun svc token pages \<Longrightarrow> \<forall>q\<in>set pages. q = page"
  by (induction pages) auto

lemma pageRun_HasNextPage:
  assumes run: "pageRun svc token (page # pages)"
    and ends: "nextPageTokens (last (page # pages)) = None \<or>
      DescribeLogGroups svc
        \<lparr>LogGroupNamePrefix = None, inNextToken = NextToken (last (page # pages))\<rparr> = Inl err"
    and prev: "prev = None \<or> prev = token"
  shows "HasNextPage prev page \<longleftrightarrow> nextPageTokens page \<noteq> None"
proof (cases "nextPageTokens page = None")
  case True
  then show ?thesis by (simp add: HasNextPage_def)
next
  case False
  then have tok: "nextPageTokens page = NextToken page" by (rule nextPageTokens_Some)
  from run have page:
    "DescribeLogGroups svc \<lparr>LogGroupNamePrefix = None, inNextToken = token\<rparr> = Inr page"
    by simp
  have "NextToken page \<noteq> token"
  proof
    assume same: "NextToken page = token"
    from pageRun_same_token [OF page same run] have "last (page # pages) = page"
      by (metis last_in_set list.distinct(1))
    with ends False page same show False by auto
  qed
  with prev False tok show ?thesis by (auto simp: HasNextPage_def)
qed

text \<open>Runs of the mock providers.\<close>

lemmas run_defs = describeLogGroups_def DescribeLogGroupsPages_def Pagination.simps
  pageCallback_def HasNextPage_def nextPageTokens_def mockPages_def mockGroups_def hasPrefix_def
  mockTable_def mockThrottledTable_def mockRepeatingTable_def mockPackage_def mockInput_def
  append_slice_def len_def elems_def

lemma mock_first_unit:
  "describeLogGroups (mockPackage 2 (mockPages mockTable [])) (mockPages mockTable []) None =
     Some (Some [mockLogGroup ''/a'' 1000, mockLogGroup ''/b'' 2000, mockLogGroup ''/c'' 3000],
           Some ''t2'', None)"
  by (simp add: run_defs)

lemma mock_second_unit:
  "describeLogGroups (mockPackage 2 (mockPages mockTable [])) (mockPages mockTable [])
     (Some ''t2'') = Some (Some [mockLogGroup ''/d'' 4000], None, None)"
  by (simp add: run_defs)

lemma mock_exact_unit:
  "describeLogGroups (mockPackage 3 (mockPages mockTable [])) (mockPages mockTable []) None =
     Some (Some [mockLogGroup ''/a'' 1000, mockLogGroup ''/b'' 2000, mockLogGroup ''/c'' 3000],
           Some ''t2'', None)"
  by (simp add: run_defs)

lemma mock_chain:
  "tokenChain (mockPackage 2 (mockPages mockTable [])) (mockPages mockTable []) None =
     Some (Inr [[mockLogGroup ''/a'' 1000, mockLogGroup ''/b'' 2000, mockLogGroup ''/c'' 3000],
                [mockLogGroup ''/d'' 4000]])"
  by (simp add: tokenChain.simps mock_first_unit mock_second_unit elems_def)

text \<open>
  A page that repeats the token of the page before it is the last page: the run ends
  there without a token, at the ceiling, below it and far below it.
\<close>

lemma mock_repeating_units:
  "describeLogGroups (mockPackage 2 (mockPages mockRepeatingTable []))
     (mockPages mockRepeatingTable []) None =
     Some (Some [mockLogGroup ''/a'' 1000, mockLogGroup ''/a'' 1000], None, None)"
  "describeLogGroups (mockPackage 3 (mockPages mockRepeatingTable []))
     (mockPages mockRepeatingTable []) None =
     Some (Some [mockLogGroup ''/a'' 1000, mockLogGroup ''/a'' 1000], None, None)"
  "describeLogGroups (mockPackage 100 (mockPages mockRepeatingTable []))
     (mockPages mockRepeatingTable []) None =
     Some (Some [mockLogGroup ''/a'' 1000, mockLogGroup ''/a'' 1000], None, None)"
  by (simp_all add: run_defs)

section \<open>The continuation token of a unit\<close>

lemma not_lastPage_token:
  "pages \<noteq> [] \<Longrightarrow> \<not> lastPage prev pages \<Longrightarrow> nextPageTokens (last pages) \<noteq> None"
  by (induction prev pages rule: lastPage.induct) (simp_all add: HasNextPage_def)

text \<open>
  C2. A successful run of \<open>describeLogGroups\<close> has been handed a non-empty run of provider
  pages and returns their groups, and the count was below \<open>defaultBatchSize\<close> before the
  last of them. Its token is non-nil exactly when the count reached the ceiling on a
  page the loop did not flag as the last page; it is nil when that page was the last;
  when the ceiling stopped the run before the end it is that page's \<open>NextToken\<close>; a run
  that ends below the ceiling ends on the last page; and the token is never the empty
  string.
\<close>

theorem describeLogGroups_token:
  assumes "describeLogGroups pkg svc token = Some (logGroups, marker, None)"
  shows "\<exists>pages. pages \<noteq> [] \<and> servedRun svc None token pages \<and>
           elems logGroups = items pages \<and>
           (butlast pages = [] \<or>
            int (length (items (butlast pages))) < defaultBatchSize pkg) \<and>
           (marker \<noteq> None \<longleftrightarrow>
              defaultBatchSize pkg \<le> len logGroups \<and> \<not> lastPage None pages) \<and>
           (lastPage None pages \<longrightarrow> marker = None) \<and>
           (defaultBatchSize pkg \<le> len logGroups \<and> \<not> lastPage None pages \<longrightarrow>
              marker = NextToken (last pages)) \<and>
           (len logGroups < defaultBatchSize pkg \<longrightarrow> lastPage None pages) \<and>
           marker \<noteq> Some []"
proof -
  from describeLogGroups_success [OF assms] obtain pages where
    ps: "servedRun svc None token pages" "stopsAfter (defaultBatchSize pkg) None None pages"
      "logGroups = append_slice None (items pages)"
      "marker = markerAfter (defaultBatchSize pkg) None None pages None"
    by blast
  have ne: "pages \<noteq> []" using ps(2) by (simp add: stopsAfter_def)
  have tok: "\<exists>t. NextToken (last pages) = Some t \<and> t \<noteq> []" if "\<not> lastPage None pages"
    using not_lastPage_token [OF ne that]
    by (auto simp: nextPageTokens_def split: option.splits if_splits)
  have "elems logGroups = items pages"
    using ps(3) by simp
  moreover have "butlast pages = [] \<or>
      int (length (items (butlast pages))) < defaultBatchSize pkg"
    using ps(2) by (auto simp: stopsAfter_def)
  moreover have "marker \<noteq> None \<longleftrightarrow>
      defaultBatchSize pkg \<le> len logGroups \<and> \<not> lastPage None pages"
    using ps(3,4) tok by (auto simp: markerAfter_def)
  moreover have "lastPage None pages \<longrightarrow> marker = None"
    using ps(4) by (simp add: markerAfter_def)
  moreover have "defaultBatchSize pkg \<le> len logGroups \<and> \<not> lastPage None pages \<longrightarrow>
      marker = NextToken (last pages)"
    using ps(3,4) by (simp add: markerAfter_def)
  moreover have "len logGroups < defaultBatchSize pkg \<longrightarrow> lastPage None pages"
    using ps(2,3) by (auto simp: stopsAfter_def)
  moreover have "marker \<noteq> Some []"
    using ps(4) tok by (auto simp: markerAfter_def split: if_splits)
  ultimately show ?thesis using ne ps(1) by blast
qed

theorem describeLogGroups_token_witness:
  "describeLogGroups (mockPackage 3 (mockPages mockTable [])) (mockPages mockTable []) None =
     Some (Some [mockLogGroup ''/a'' 1000, mockLogGroup ''/b'' 2000, mockLogGroup ''/c'' 3000],
           Some ''t2'', None) \<and>
   (\<exists>pages. servedRun (mockPages mockTable []) None None pages \<and>
      items pages = [mockLogGroup ''/a'' 1000, mockLogGroup ''/b'' 2000, mockLogGroup ''/c'' 3000] \<and>
      int (length (items (butlast pages))) < 3 \<and>
      \<not> lastPage None pages \<and> NextToken (last pages) = Some ''t2'')"
proof -
  let ?lg = "Some [mockLogGroup ''/a'' 1000, mockLogGroup ''/b'' 2000, mockLogGroup ''/c'' 3000]"
  let ?B = "defaultBatchSize (mockPackage 3 (mockPages mockTable []) :: int64 package)"
  from describeLogGroups_token [OF mock_exact_unit] obtain pages where
    ps: "servedRun (mockPages mockTable []) None None pages" "elems ?lg = items pages"
      "butlast pages = [] \<or> int (length (items (butlast pages))) < ?B"
      "Some ''t2'' \<noteq> None \<longleftrightarrow> ?B \<le> len ?lg \<and> \<not> lastPage None pages"
      "?B \<le> len ?lg \<and> \<not> lastPage None pages \<longrightarrow> Some ''t2'' = NextToken (last pages)"
    by blast
  from ps(4) have more: "\<not> lastPage None pages" and full: "?B \<le> len ?lg"
    by simp_all
  with ps(5) have "NextToken (last pages) = Some ''t2''" by simp
  moreover from ps(2) have "items pages =
      [mockLogGroup ''/a'' 1000, mockLogGroup ''/b'' 2000, mockLogGroup ''/c'' 3000]"
    by (simp add: elems_def)
  moreover from ps(3) have "int (length (items (butlast pages))) < 3"
    by (auto simp: mockPackage_def)
  ultimately show ?thesis using mock_exact_unit ps(1) more by blast
qed

text \<open>
  C3. The groups a successful run returns are the concatenation of whole provider pages
  in the order served. The count is compared with \<open>defaultBatchSize\<close> after a page is
  appended: before the last page the count was below the ceiling, and the run ends on a
  page that reaches it or is the last page. The witness run returns three groups under
  a ceiling of two.
\<close>

theorem describeLogGroups_whole_pages:
  assumes "describeLogGroups pkg svc token = Some (logGroups, marker, None)"
  shows "\<exists>pages. pages \<noteq> [] \<and> servedRun svc None token pages \<and>
           logGroups = append_slice None (concat (map LogGroups pages)) \<and>
           (butlast pages = [] \<or>
            int (length (concat (map LogGroups (butlast pages)))) < defaultBatchSize pkg) \<and>
           (defaultBatchSize pkg \<le> len logGroups \<or> lastPage None pages)"
proof -
  from describeLogGroups_success [OF assms] obtain pages where
    ps: "servedRun svc None token pages" "stopsAfter (defaultBatchSize pkg) None None pages"
      "logGroups = append_slice None (items pages)"
    by blast
  then show ?thesis
    by (auto simp: stopsAfter_def items_def)
qed

theorem describeLogGroups_whole_pages_witness:
  "describeLogGroups (mockPackage 2 (mockPages mockTable [])) (mockPages mockTable []) None =
     Some (Some [mockLogGroup ''/a'' 1000, mockLogGroup ''/b'' 2000, mockLogGroup ''/c'' 3000],
           Some ''t2'', None) \<and>
   defaultBatchSize (mockPackage 2 (mockPages mockTable []) :: int64 package) <
     len (Some [mockLogGroup ''/a'' 1000, mockLogGroup ''/b'' 2000, mockLogGroup ''/c'' 3000]) \<and>
   (\<exists>pages. pages \<noteq> [] \<and> servedRun (mockPages mockTable []) None None pages \<and>
      concat (map LogGroups pages) =
        [mockLogGroup ''/a'' 1000, mockLogGroup ''/b'' 2000, mockLogGroup ''/c'' 3000])"
proof -
  let ?lg = "Some [mockLogGroup ''/a'' 1000, mockLogGroup ''/b'' 2000, mockLogGroup ''/c'' 3000]"
  from describeLogGroups_whole_pages [OF mock_first_unit] obtain pages where
    ps: "pages \<noteq> []" "servedRun (mockPages mockTable []) None None pages"
      "?lg = append_slice None (concat (map LogGroups pages))"
    by blast
  have "elems (append_slice None (concat (map LogGroups pages))) = concat (map LogGroups pages)"
    by simp
  with ps(3) have "concat (map LogGroups pages) = elems ?lg"
    by simp
  then have "concat (map LogGroups pages) =
      [mockLogGroup ''/a'' 1000, mockLogGroup ''/b'' 2000, mockLogGroup ''/c'' 3000]"
    by (simp add: elems_def)
  moreover have "defaultBatchSize (mockPackage 2 (mockPages mockTable []) :: int64 package) < len ?lg"
    by (simp add: mockPackage_def len_def elems_def)
  ultimately show ?thesis using mock_first_unit ps(1,2) by blast
qed

section \<open>Provider errors\<close>

lemma pages_fail:
  "failsAfter svc token pages err \<Longrightarrow>
   pages = [] \<or> len (append_slice acc (items pages)) < B \<Longrightarrow>
   prev = None \<or> prev = token \<Longrightarrow>
     Pagination svc (pageCallback B) prev token (acc, m) =
       Some (Some err, append_slice acc (items pages), m)"
proof (induction pages arbitrary: token acc prev)
  case Nil
  then show ?case
    by (subst Pagination.simps) (simp add: failsAfter_def)
next
  case (Cons page pages)
  let ?acc = "append_slice acc (LogGroups page)"
  from Cons.prems(1) have run: "pageRun svc token (page # pages)"
    and ends: "nextPageTokens (last (page # pages)) = None \<or>
      DescribeLogGroups svc
        \<lparr>LogGroupNamePrefix = None, inNextToken = NextToken (last (page # pages))\<rparr> = Inl err"
    by (simp_all add: failsAfter_def)
  from Cons.prems(1) have page:
    "DescribeLogGroups svc \<lparr>LogGroupNamePrefix = None, inNextToken = token\<rparr> = Inr page"
    and has: "nextPageTokens page \<noteq> None"
    by (auto simp: failsAfter_def)
  from pageRun_HasNextPage [OF run ends Cons.prems(3)] has have more: "HasNextPage prev page"
    by simp
  from has have tok: "nextPageTokens page = NextToken page" by (rule nextPageTokens_Some)
  from Cons.prems(2) have below: "len ?acc < B"
    by simp
  have rest: "failsAfter svc (NextToken page) pages err"
    using Cons.prems(1) by (auto simp: failsAfter_def)
  have rest': "pages = [] \<or> len (append_slice ?acc (items pages)) < B"
    using Cons.prems(2) by simp
  have "Pagination svc (pageCallback B) prev token (acc, m) =
      Pagination svc (pageCallback B) (NextToken page) (NextToken page) (?acc, m)"
    using page more below tok
    by (subst Pagination.simps) (simp add: pageCallback_def Let_def)
  with Cons.IH [OF rest rest', of "NextToken page"] show ?case by simp
qed

lemma snapshotLoop_error:
  "snapshotLoop pkg svc pollerInput marker logGroups resources = Returns (batch, token, Some err) \<Longrightarrow>
     batch = None \<and> token = None"
  by (induction logGroups arbitrary: resources)
     (auto simp: Let_def split: outcome.splits prod.splits option.splits)

text \<open>
  C8. When the provider serves some pages whose groups stay below the ceiling and fails
  the next request, \<open>describeLogGroups\<close> returns nil groups, a nil token and the wrapped
  error, and \<open>PollCloudWatchLogsLogGroups\<close> returns a nil batch, a nil token and that
  error. Every error return of either function carries nil groups and a nil token.
\<close>

theorem describeLogGroups_provider_error:
  assumes "failsAfter svc token pages err"
    and "pages = [] \<or> int (length (items pages)) < defaultBatchSize pkg"
  shows "describeLogGroups pkg svc token =
           Some (None, None, Some (Wrap err ''CloudWatchLogs.DescribeLogGroups'')) \<and>
         (pollerRegion pollerInput = Some region \<and>
          getCloudWatchLogsClient pkg pollerInput region = Inr svc \<and>
          NextPageToken pollerInput = token \<longrightarrow>
            PollCloudWatchLogsLogGroups pkg pollerInput =
              Some (Returns (None, None, Some (Wrap err ''CloudWatchLogs.DescribeLogGroups'')))) \<and>
         (\<forall>svc' token' logGroups marker e.
            describeLogGroups pkg svc' token' = Some (logGroups, marker, Some e) \<longrightarrow>
              logGroups = None \<and> marker = None) \<and>
         (\<forall>input' batch marker e.
            PollCloudWatchLogsLogGroups pkg input' = Some (Returns (batch, marker, Some e)) \<longrightarrow>
              batch = None \<and> marker = None)"
proof -
  have "pages = [] \<or> len (append_slice None (items pages)) < defaultBatchSize pkg"
    using assms(2) by simp
  from pages_fail [OF assms(1) this, of None]
  have d: "describeLogGroups pkg svc token =
      Some (None, None, Some (Wrap err ''CloudWatchLogs.DescribeLogGroups''))"
    by (simp add: describeLogGroups_def DescribeLogGroupsPages_def)
  then have p: "pollerRegion pollerInput = Some region \<and>
      getCloudWatchLogsClient pkg pollerInput region = Inr svc \<and>
      NextPageToken pollerInput = token \<longrightarrow>
        PollCloudWatchLogsLogGroups pkg pollerInput =
          Some (Returns (None, None, Some (Wrap err ''CloudWatchLogs.DescribeLogGroups'')))"
    by (auto simp: PollCloudWatchLogsLogGroups_def)
  have u: "\<forall>svc' token' logGroups marker e.
      describeLogGroups pkg svc' token' = Some (logGroups, marker, Some e) \<longrightarrow>
        logGroups = None \<and> marker = None"
    by (auto simp: describeLogGroups_def split: option.splits prod.splits)
  have v: "\<forall>input' batch marker e.
      PollCloudWatchLogsLogGroups pkg input' = Some (Returns (batch, marker, Some e)) \<longrightarrow>
        batch = None \<and> marker = None"
    by (auto simp: PollCloudWatchLogsLogGroups_def
          split: option.splits sum.splits prod.splits dest: snapshotLoop_error)
  from d p u v show ?thesis by blast
qed

theorem describeLogGroups_provider_error_witness:
  "failsAfter (mockPages mockThrottledTable []) None
     [\<lparr>LogGroups = [mockLogGroup ''/a'' 1000], NextToken = Some ''t1''\<rparr>]
     (AwsError ''ThrottlingException'') \<and>
   int (length (items [\<lparr>LogGroups = [mockLogGroup ''/a'' 1000], NextToken = Some ''t1''\<rparr>])) <
     defaultBatchSize (mockPackage 100 (mockPages mockThrottledTable []) :: int64 package) \<and>
   describeLogGroups (mockPackage 100 (mockPages mockThrottledTable []) :: int64 package)
     (mockPages mockThrottledTable []) None =
     Some (None, None,
           Some (Wrap (AwsError ''ThrottlingException'') ''CloudWatchLogs.DescribeLogGroups'')) \<and>
   PollCloudWatchLogsLogGroups (mockPackage 100 (mockPages mockThrottledTable []) :: int64 package)
     (mockInput None) =
     Some (Returns (None, None,
           Some (Wrap (AwsError ''ThrottlingException'') ''CloudWatchLogs.DescribeLogGroups'')))"
proof -
  let ?svc = "mockPages mockThrottledTable []"
  let ?pkg = "mockPackage 100 ?svc :: int64 package"
  let ?pages = "[\<lparr>LogGroups = [mockLogGroup ''/a'' 1000], NextToken = Some ''t1''\<rparr>]"
  have fails: "failsAfter ?svc None ?pages (AwsError ''ThrottlingException'')"
    by (simp add: failsAfter_def nextPageTokens_def mockPages_def mockThrottledTable_def)
  have below: "int (length (items ?pages)) < defaultBatchSize ?pkg"
    by (simp add: mockPackage_def)
  have input: "pollerRegion (mockInput None) = Some ''us-west-2'' \<and>
      getCloudWatchLogsClient ?pkg (mockInput None) ''us-west-2'' = Inr ?svc \<and>
      NextPageToken (mockInput None) = None"
    by (simp add: mockInput_def getCloudWatchLogsClient_def mockPackage_def)
  from describeLogGroups_provider_error [OF fails disjI2 [OF below],
      where pollerInput = "mockInput None" and region = "''us-west-2''"] input
  have "describeLogGroups ?pkg ?svc None =
      Some (None, None,
            Some (Wrap (AwsError ''ThrottlingException'') ''CloudWatchLogs.DescribeLogGroups''))"
    and "PollCloudWatchLogsLogGroups ?pkg (mockInput None) =
      Some (Returns (None, None,
            Some (Wrap (AwsError ''ThrottlingException'') ''CloudWatchLogs.DescribeLogGroups'')))"
    by blast+
  with fails below show ?thesis by blast
qed

section \<open>Chains of units\<close>

lemma chain_pages:
  "pageRun svc token pages \<Longrightarrow> pages \<noteq> [] \<Longrightarrow> nextPageTokens (last pages) = None \<Longrightarrow>
   prev = None \<or> prev = token \<Longrightarrow>
     \<exists>lg mk. Pagination svc (pageCallback (defaultBatchSize pkg)) prev token (acc, None) =
               Some (None, lg, mk) \<and>
       (case mk of
          None \<Rightarrow> elems lg = elems acc @ items pages
        | Some t \<Rightarrow> \<exists>batches. tokenChain pkg svc (Some t) = Some (Inr batches) \<and>
                     elems lg @ concat batches = elems acc @ items pages)"
proof (induction pages arbitrary: token acc prev)
  case Nil
  then show ?case by simp
next
  case (Cons page pages)
  let ?B = "defaultBatchSize pkg"
  let ?acc = "append_slice acc (LogGroups page)"
  from Cons.prems have page:
    "DescribeLogGroups svc \<lparr>LogGroupNamePrefix = None, inNextToken = token\<rparr> = Inr page"
    by simp
  have ends: "nextPageTokens (last (page # pages)) = None"
    using Cons.prems(3) by simp
  note flag = pageRun_HasNextPage [OF Cons.prems(1) disjI1 [OF ends] Cons.prems(4)]
  show ?case
  proof (cases "pages = []")
    case True
    with Cons.prems flag have "\<not> HasNextPage prev page" by simp
    with page True have
      "Pagination svc (pageCallback ?B) prev token (acc, None) = Some (None, ?acc, None)"
      by (subst Pagination.simps) (simp add: pageCallback_def Let_def)
    with True show ?thesis by simp
  next
    case False
    with Cons.prems have has: "nextPageTokens page \<noteq> None"
      and run: "pageRun svc (NextToken page) pages"
      and last: "nextPageTokens (last pages) = None"
      by auto
    from has flag have more: "HasNextPage prev page" by simp
    from has have tok: "nextPageTokens page = NextToken page" by (rule nextPageTokens_Some)
    with has obtain t where t: "NextToken page = Some t" by auto
    show ?thesis
    proof (cases "?B \<le> len ?acc")
      case True
      with page more have stop:
        "Pagination svc (pageCallback ?B) prev token (acc, None) = Some (None, ?acc, Some t)"
        by (subst Pagination.simps) (simp add: pageCallback_def Let_def t)
      from Cons.IH [OF run False last, of None None] obtain lg mk where
        next_unit: "Pagination svc (pageCallback ?B) None (NextToken page) (None, None) =
                      Some (None, lg, mk)"
        and rest: "case mk of
                     None \<Rightarrow> elems lg = elems None @ items pages
                   | Some t' \<Rightarrow> \<exists>batches. tokenChain pkg svc (Some t') = Some (Inr batches) \<and>
                                  elems lg @ concat batches = elems None @ items pages"
        by blast
      have "\<exists>batches. tokenChain pkg svc (Some t) = Some (Inr batches) \<and>
              concat batches = items pages"
      proof (cases mk)
        case None
        with next_unit rest t show ?thesis
          by (subst tokenChain.simps)
             (simp add: describeLogGroups_def DescribeLogGroupsPages_def)
      next
        case (Some t')
        with rest obtain batches where
          "tokenChain pkg svc (Some t') = Some (Inr batches)" "elems lg @ concat batches = items pages"
          by auto
        with next_unit Some t show ?thesis
          by (subst tokenChain.simps)
             (simp add: describeLogGroups_def DescribeLogGroupsPages_def)
      qed
      with stop show ?thesis by auto
    next
      case below: False
      with page more tok have
        "Pagination svc (pageCallback ?B) prev token (acc, None) =
           Pagination svc (pageCallback ?B) (NextToken page) (NextToken page) (?acc, None)"
        by (subst Pagination.simps) (simp add: pageCallback_def Let_def)
      moreover from Cons.IH [OF run False last, of "NextToken page" ?acc] obtain lg mk where
        "Pagination svc (pageCallback ?B) (NextToken page) (NextToken page) (?acc, None) =
           Some (None, lg, mk)"
        and "case mk of
               None \<Rightarrow> elems lg = elems ?acc @ items pages
             | Some t' \<Rightarrow> \<exists>batches. tokenChain pkg svc (Some t') = Some (Inr batches) \<and>
                            elems lg @ concat batches = elems ?acc @ items pages"
        by blast
      ultimately show ?thesis
        by (cases mk) auto
    qed
  qed
qed

lemma tokenChain_pages:
  assumes "pageSequence svc token pages"
  shows "\<exists>batches. tokenChain pkg svc token = Some (Inr batches) \<and> concat batches = items pages"
proof -
  from assms have "pageRun svc token pages" "pages \<noteq> []" "nextPageTokens (last pages) = None"
    by (simp_all add: pageSequence_def)
  from chain_pages [OF this, of None pkg None] obtain lg mk where
    unit: "Pagination svc (pageCallback (defaultBatchSize pkg)) None token (None, None) =
             Some (None, lg, mk)"
    and rest: "case mk of
                 None \<Rightarrow> elems lg = elems None @ items pages
               | Some t \<Rightarrow> \<exists>batches. tokenChain pkg svc (Some t) = Some (Inr batches) \<and>
                              elems lg @ concat batches = elems None @ items pages"
    by blast
  show ?thesis
  proof (cases mk)
    case None
    with unit rest show ?thesis
      by (subst tokenChain.simps) (simp add: describeLogGroups_def DescribeLogGroupsPages_def)
  next
    case (Some t)
    with rest obtain batches where
      "tokenChain pkg svc (Some t) = Some (Inr batches)" "elems lg @ concat batches = items pages"
      by auto
    with unit Some show ?thesis
      by (subst tokenChain.simps) (simp add: describeLogGroups_def DescribeLogGroupsPages_def)
  qed
qed

lemma pages_all:
  "pageRun svc token pages \<Longrightarrow> pages \<noteq> [] \<Longrightarrow> nextPageTokens (last pages) = None \<Longrightarrow>
   prev = None \<or> prev = token \<Longrightarrow> len (append_slice acc (items pages)) < B \<Longrightarrow>
     Pagination svc (pageCallback B) prev token (acc, m) =
       Some (None, append_slice acc (items pages), m)"
proof (induction pages arbitrary: token acc prev)
  case Nil
  then show ?case by simp
next
  case (Cons page pages)
  let ?acc = "append_slice acc (LogGroups page)"
  from Cons.prems have page:
    "DescribeLogGroups svc \<lparr>LogGroupNamePrefix = None, inNextToken = token\<rparr> = Inr page"
    by simp
  have ends: "nextPageTokens (last (page # pages)) = None"
    using Cons.prems(3) by simp
  note flag = pageRun_HasNextPage [OF Cons.prems(1) disjI1 [OF ends] Cons.prems(4)]
  from Cons.prems(5) have below: "len ?acc < B" by simp
  show ?case
  proof (cases "pages = []")
    case True
    with Cons.prems flag have "\<not> HasNextPage prev page" by simp
    with page True below show ?thesis
      by (subst Pagination.simps) (simp add: pageCallback_def Let_def)
  next
    case False
    with Cons.prems have has: "nextPageTokens page \<noteq> None"
      and run: "pageRun svc (NextToken page) pages"
      and last: "nextPageTokens (last pages) = None"
      by auto
    from has flag have more: "HasNextPage prev page" by simp
    from has have tok: "nextPageTokens page = NextToken page" by (rule nextPageTokens_Some)
    have rest: "len (append_slice ?acc (items pages)) < B"
      using Cons.prems(5) by simp
    have "Pagination svc (pageCallback B) prev token (acc, m) =
        Pagination svc (pageCallback B) (NextToken page) (NextToken page) (?acc, m)"
      using page more below tok
      by (subst Pagination.simps) (simp add: pageCallback_def Let_def)
    with Cons.IH [OF run False last _ rest, of "NextToken page"] show ?thesis by simp
  qed
qed

lemma describeLogGroups_unbounded:
  assumes "pageSequence svc token pages"
    and "int (length (items pages)) < defaultBatchSize pkg"
  shows "describeLogGroups pkg svc token = Some (append_slice None (items pages), None, None)"
proof -
  from assms(1) have run: "pageRun svc token pages" and ne: "pages \<noteq> []"
    and last: "nextPageTokens (last pages) = None"
    by (simp_all add: pageSequence_def)
  have "len (append_slice None (items pages)) < defaultBatchSize pkg"
    using assms(2) by simp
  from pages_all [OF run ne last _ this, of None None] show ?thesis
    by (simp add: describeLogGroups_def DescribeLogGroupsPages_def)
qed

text \<open>
  C1. For a provider that serves a complete finite sequence of pages from a token, the
  chain of units run with any ceiling returns batches whose concatenation is the list of
  groups one unit returns under a ceiling above the total count: the same groups, each
  as often and in the same order, hence the same set.
\<close>

theorem tokenChain_complete:
  assumes "pageSequence svc token pages"
    and "int (length (items pages)) < defaultBatchSize unbounded"
  shows "\<exists>batches logGroups.
           tokenChain pkg svc token = Some (Inr batches) \<and>
           describeLogGroups unbounded svc token = Some (logGroups, None, None) \<and>
           set (concat batches) = set (elems logGroups) \<and>
           concat batches = elems logGroups \<and>
           elems logGroups = concat (map LogGroups pages)"
proof -
  from tokenChain_pages [OF assms(1), of pkg] obtain batches where
    "tokenChain pkg svc token = Some (Inr batches)" "concat batches = items pages"
    by blast
  moreover note describeLogGroups_unbounded [OF assms]
  moreover have "elems (append_slice None (items pages)) = items pages"
    by simp
  ultimately have "tokenChain pkg svc token = Some (Inr batches) \<and>
      describeLogGroups unbounded svc token = Some (append_slice None (items pages), None, None) \<and>
      set (concat batches) = set (elems (append_slice None (items pages))) \<and>
      concat batches = elems (append_slice None (items pages)) \<and>
      elems (append_slice None (items pages)) = concat (map LogGroups pages)"
    by (simp add: items_def)
  then show ?thesis by blast
qed

theorem tokenChain_complete_witness:
  "pageSequence (mockPages mockTable []) None
     [\<lparr>LogGroups = [mockLogGroup ''/a'' 1000], NextToken = Some ''t1''\<rparr>,
      \<lparr>LogGroups = [mockLogGroup ''/b'' 2000, mockLogGroup ''/c'' 3000], NextToken = Some ''t2''\<rparr>,
      \<lparr>LogGroups = [mockLogGroup ''/d'' 4000], NextToken = None\<rparr>] \<and>
   tokenChain (mockPackage 2 (mockPages mockTable [])) (mockPages mockTable []) None =
     Some (Inr [[mockLogGroup ''/a'' 1000, mockLogGroup ''/b'' 2000, mockLogGroup ''/c'' 3000],
                [mockLogGroup ''/d'' 4000]]) \<and>
   (\<exists>logGroups.
      describeLogGroups (mockPackage 100 (mockPages mockTable [])) (mockPages mockTable []) None =
        Some (logGroups, None, None) \<and>
      elems logGroups =
        [mockLogGroup ''/a'' 1000, mockLogGroup ''/b'' 2000, mockLogGroup ''/c'' 3000,
         mockLogGroup ''/d'' 4000])"
proof -
  let ?svc = "mockPages mockTable []"
  let ?pages = "[\<lparr>LogGroups = [mockLogGroup ''/a'' 1000], NextToken = Some ''t1''\<rparr>,
      \<lparr>LogGroups = [mockLogGroup ''/b'' 2000, mockLogGroup ''/c'' 3000], NextToken = Some ''t2''\<rparr>,
      \<lparr>LogGroups = [mockLogGroup ''/d'' 4000], NextToken = None\<rparr>]"
  have seq: "pageSequence ?svc None ?pages"
    by (simp add: pageSequence_def nextPageTokens_def mockPages_def mockTable_def)
  have unbounded: "int (length (items ?pages)) <
      defaultBatchSize (mockPackage 100 ?svc :: int64 package)"
    by (simp add: mockPackage_def)
  from tokenChain_complete [OF seq unbounded, of "mockPackage 2 ?svc"]
  obtain batches logGroups where
    r: "tokenChain (mockPackage 2 ?svc) ?svc None = Some (Inr batches)"
      "describeLogGroups (mockPackage 100 ?svc :: int64 package) ?svc None = Some (logGroups, None, None)"
      "concat batches = elems logGroups"
    by blast
  from r(1) mock_chain have "batches =
      [[mockLogGroup ''/a'' 1000, mockLogGroup ''/b'' 2000, mockLogGroup ''/c'' 3000],
       [mockLogGroup ''/d'' 4000]]"
    by simp
  with r(3) have "elems logGroups =
      [mockLogGroup ''/a'' 1000, mockLogGroup ''/b'' 2000, mockLogGroup ''/c'' 3000,
       mockLogGroup ''/d'' 4000]"
    by simp
  with seq mock_chain r(2) show ?thesis by blast
qed

section \<open>Failure of a tag request\<close>

lemma build_tags_fail:
  "ListTagsLogGroup svc (LogGroupName g) = Inl err \<Longrightarrow>
     buildCloudWatchLogsLogGroupSnapshot pkg svc g =
       (case CreationTime g of
          None \<Rightarrow> Panics
        | Some t \<Rightarrow> Returns (None, Some (Wrap err ''CloudWatchLogs ListTagsLogGroup'')))"
  by (simp add: buildCloudWatchLogsLogGroupSnapshot_def listTagsLogGroup_def Let_def
        split: option.splits)

lemma build_tags_ok:
  "ListTagsLogGroup svc (LogGroupName g) = Inr t \<Longrightarrow> CreationTime g = Some ms \<Longrightarrow>
     \<exists>snapshot. buildCloudWatchLogsLogGroupSnapshot pkg svc g = Returns (Some snapshot, None) \<and>
       ResourceID snapshot = Arn g"
  by (simp add: buildCloudWatchLogsLogGroupSnapshot_def listTagsLogGroup_def Let_def)

lemma build_never_error_when_tags_ok:
  "ListTagsLogGroup svc (LogGroupName g) = Inr t \<Longrightarrow>
     buildCloudWatchLogsLogGroupSnapshot pkg svc g \<noteq> Returns (s, Some e)"
  by (simp add: buildCloudWatchLogsLogGroupSnapshot_def listTagsLogGroup_def Let_def
        split: option.splits)

lemma snapshotLoop_tag_failure:
  assumes "\<forall>g\<in>set before. \<exists>t. ListTagsLogGroup svc (LogGroupName g) = Inr t"
    and "ListTagsLogGroup svc (LogGroupName logGroup) = Inl err"
  shows "snapshotLoop pkg svc pollerInput marker (before @ logGroup # after) resources = Panics \<or>
         snapshotLoop pkg svc pollerInput marker (before @ logGroup # after) resources =
           Returns (None, None, Some (Wrap err ''CloudWatchLogs ListTagsLogGroup''))"
  using assms(1)
proof (induction before arbitrary: resources)
  case Nil
  show ?case
    by (cases "CreationTime logGroup") (simp_all add: build_tags_fail [OF assms(2)])
next
  case (Cons g before)
  then obtain t where t: "ListTagsLogGroup svc (LogGroupName g) = Inr t" by auto
  show ?case
  proof (cases "buildCloudWatchLogsLogGroupSnapshot pkg svc g")
    case Panics
    then show ?thesis by simp
  next
    case (Returns r)
    obtain s e where r: "r = (s, e)" by (cases r)
    with Returns build_never_error_when_tags_ok [OF t, of pkg] have e: "e = None"
      by (cases e) auto
    show ?thesis
    proof (cases s)
      case None
      with Returns r e show ?thesis by simp
    next
      case (Some snapshot)
      from Cons.prems have rest: "\<forall>g\<in>set before. \<exists>t. ListTagsLogGroup svc (LogGroupName g) = Inr t"
        by simp
      show ?thesis
        using Returns r e Some Cons.IH [OF rest]
        by (simp add: Let_def split: option.splits)
    qed
  qed
qed

lemma snapshotLoop_tag_failure_returns:
  assumes "\<forall>g\<in>set before. \<exists>t. ListTagsLogGroup svc (LogGroupName g) = Inr t"
    and "ListTagsLogGroup svc (LogGroupName logGroup) = Inl err"
    and "\<forall>g\<in>set before. CreationTime g \<noteq> None \<and> Arn g \<noteq> None"
    and "CreationTime logGroup \<noteq> None"
    and "IntegrationID pollerInput \<noteq> None"
  shows "snapshotLoop pkg svc pollerInput marker (before @ logGroup # after) resources =
           Returns (None, None, Some (Wrap err ''CloudWatchLogs ListTagsLogGroup''))"
  using assms(1,3)
proof (induction before arbitrary: resources)
  case Nil
  from assms(4) show ?case
    by (auto simp: build_tags_fail [OF assms(2)])
next
  case (Cons g before)
  then obtain t ms a where t: "ListTagsLogGroup svc (LogGroupName g) = Inr t"
    and ms: "CreationTime g = Some ms" and a: "Arn g = Some a"
    by auto
  from build_tags_ok [OF t ms, of pkg] obtain snapshot where
    s: "buildCloudWatchLogsLogGroupSnapshot pkg svc g = Returns (Some snapshot, None)"
      "ResourceID snapshot = Arn g"
    by blast
  from assms(5) obtain i where i: "IntegrationID pollerInput = Some i" by auto
  from Cons.prems have rest: "\<forall>g\<in>set before. \<exists>t. ListTagsLogGroup svc (LogGroupName g) = Inr t"
    "\<forall>g\<in>set before. CreationTime g \<noteq> None \<and> Arn g \<noteq> None"
    by simp_all
  show ?case
    using s a i Cons.IH [OF rest] by (simp add: Let_def)
qed

text \<open>
  C4. When the client is obtained, the enumeration succeeds and the tag request fails for
  one of the enumerated groups, \<open>PollCloudWatchLogsLogGroups\<close> never returns a batch: it
  returns a nil batch and a nil token with the wrapped error of a failed tag request, the
  only other end being the panic of a nil dereference; and it does return so whenever
  every enumerated group has a creation time and an ARN and the input has an integration
  id. The groups normalized before the failure are not returned.
\<close>

theorem PollCloudWatchLogsLogGroups_tag_failure:
  assumes "pollerRegion pollerInput = Some region"
    and "getCloudWatchLogsClient pkg pollerInput region = Inr svc"
    and "describeLogGroups pkg svc (NextPageToken pollerInput) = Some (logGroups, marker, None)"
    and "logGroup \<in> set (elems logGroups)"
    and "ListTagsLogGroup svc (LogGroupName logGroup) = Inl err"
  shows "\<exists>g e. g \<in> set (elems logGroups) \<and> ListTagsLogGroup svc (LogGroupName g) = Inl e \<and>
           (PollCloudWatchLogsLogGroups pkg pollerInput = Some Panics \<or>
            PollCloudWatchLogsLogGroups pkg pollerInput =
              Some (Returns (None, None, Some (Wrap e ''CloudWatchLogs ListTagsLogGroup'')))) \<and>
           ((\<forall>g\<in>set (elems logGroups). CreationTime g \<noteq> None \<and> Arn g \<noteq> None) \<and>
            IntegrationID pollerInput \<noteq> None \<longrightarrow>
              PollCloudWatchLogsLogGroups pkg pollerInput =
                Some (Returns (None, None, Some (Wrap e ''CloudWatchLogs ListTagsLogGroup''))))"
proof -
  let ?fails = "\<lambda>g. \<exists>e. ListTagsLogGroup svc (LogGroupName g) = Inl e"
  from assms(4,5) have "\<exists>g\<in>set (elems logGroups). ?fails g" by blast
  from split_list_first_prop [OF this] obtain before g after where
    split: "elems logGroups = before @ g # after" and "?fails g"
    and ok: "\<forall>y\<in>set before. \<not> ?fails y"
    by blast
  then obtain e where e: "ListTagsLogGroup svc (LogGroupName g) = Inl e" by blast
  have before: "\<forall>y\<in>set before. \<exists>t. ListTagsLogGroup svc (LogGroupName y) = Inr t"
  proof
    fix y assume "y \<in> set before"
    with ok have "\<not> ?fails y" by blast
    then show "\<exists>t. ListTagsLogGroup svc (LogGroupName y) = Inr t"
      by (cases "ListTagsLogGroup svc (LogGroupName y)") auto
  qed
  have poll: "PollCloudWatchLogsLogGroups pkg pollerInput =
      Some (snapshotLoop pkg svc pollerInput marker (before @ g # after) [])"
    using assms(1,2,3) split by (simp add: PollCloudWatchLogsLogGroups_def)
  have mem: "g \<in> set (elems logGroups)" using split by simp
  have a: "PollCloudWatchLogsLogGroups pkg pollerInput = Some Panics \<or>
      PollCloudWatchLogsLogGroups pkg pollerInput =
        Some (Returns (None, None, Some (Wrap e ''CloudWatchLogs ListTagsLogGroup'')))"
    using snapshotLoop_tag_failure [OF before e, of pkg pollerInput marker after "[]"] poll
    by auto
  have b: "(\<forall>g\<in>set (elems logGroups). CreationTime g \<noteq> None \<and> Arn g \<noteq> None) \<and>
      IntegrationID pollerInput \<noteq> None \<longrightarrow>
        PollCloudWatchLogsLogGroups pkg pollerInput =
          Some (Returns (None, None, Some (Wrap e ''CloudWatchLogs ListTagsLogGroup'')))"
  proof
    assume wf: "(\<forall>g\<in>set (elems logGroups). CreationTime g \<noteq> None \<and> Arn g \<noteq> None) \<and>
      IntegrationID pollerInput \<noteq> None"
    with split have "\<forall>g\<in>set before. CreationTime g \<noteq> None \<and> Arn g \<noteq> None"
      "CreationTime g \<noteq> None" "IntegrationID pollerInput \<noteq> None"
      by simp_all
    from snapshotLoop_tag_failure_returns [OF before e this, of pkg marker after "[]"] poll
    show "PollCloudWatchLogsLogGroups pkg pollerInput =
        Some (Returns (None, None, Some (Wrap e ''CloudWatchLogs ListTagsLogGroup'')))"
      by simp
  qed
  from mem e a b show ?thesis by blast
qed

theorem PollCloudWatchLogsLogGroups_tag_failure_witness:
  "describeLogGroups
     (mockPackage 100
        (mockGroups [mockLogGroup ''/a'' 1000, mockLogGroup ''/b'' 2000, mockLogGroup ''/c'' 3000]
           [''/b'']) :: int64 package)
     (mockGroups [mockLogGroup ''/a'' 1000, mockLogGroup ''/b'' 2000, mockLogGroup ''/c'' 3000]
        [''/b''])
     (NextPageToken (mockInput None)) =
     Some (Some [mockLogGroup ''/a'' 1000, mockLogGroup ''/b'' 2000, mockLogGroup ''/c'' 3000],
           None, None) \<and>
   ListTagsLogGroup
     (mockGroups [mockLogGroup ''/a'' 1000, mockLogGroup ''/b'' 2000, mockLogGroup ''/c'' 3000]
        [''/b''])
     (LogGroupName (mockLogGroup ''/b'' 2000)) = Inl (AwsError ''ThrottlingException'') \<and>
   PollCloudWatchLogsLogGroups
     (mockPackage 100
        (mockGroups [mockLogGroup ''/a'' 1000, mockLogGroup ''/b'' 2000, mockLogGroup ''/c'' 3000]
           [''/b'']) :: int64 package)
     (mockInput None) =
     Some (Returns (None, None,
       Some (Wrap (AwsError ''ThrottlingException'') ''CloudWatchLogs ListTagsLogGroup'')))"
proof -
  let ?gs = "[mockLogGroup ''/a'' 1000, mockLogGroup ''/b'' 2000, mockLogGroup ''/c'' 3000]"
  let ?svc = "mockGroups ?gs [''/b'']"
  let ?pkg = "mockPackage 100 ?svc :: int64 package"
  have region: "pollerRegion (mockInput None) = Some ''us-west-2''"
    by (simp add: mockInput_def)
  have client: "getCloudWatchLogsClient ?pkg (mockInput None) ''us-west-2'' = Inr ?svc"
    by (simp add: getCloudWatchLogsClient_def mockPackage_def)
  have listed: "describeLogGroups ?pkg ?svc (NextPageToken (mockInput None)) =
      Some (Some ?gs, None, None)"
    by (simp add: run_defs)
  have mem: "mockLogGroup ''/b'' 2000 \<in> set (elems (Some ?gs))"
    by (simp add: elems_def)
  have fails: "ListTagsLogGroup ?svc (LogGroupName (mockLogGroup ''/b'' 2000)) =
      Inl (AwsError ''ThrottlingException'')"
    by (simp add: mockGroups_def mockTags_def mockLogGroup_def)
  have wf: "(\<forall>g\<in>set (elems (Some ?gs)). CreationTime g \<noteq> None \<and> Arn g \<noteq> None) \<and>
      IntegrationID (mockInput None) \<noteq> None"
    by (simp add: elems_def mockLogGroup_def mockInput_def)
  from PollCloudWatchLogsLogGroups_tag_failure [OF region client listed mem fails] wf
  obtain g e where g: "g \<in> set (elems (Some ?gs))"
    "ListTagsLogGroup ?svc (LogGroupName g) = Inl e"
    "PollCloudWatchLogsLogGroups ?pkg (mockInput None) =
       Some (Returns (None, None, Some (Wrap e ''CloudWatchLogs ListTagsLogGroup'')))"
    by blast
  from g(1,2) have "e = AwsError ''ThrottlingException''"
    by (auto simp: elems_def mockGroups_def mockTags_def mockLogGroup_def split: if_splits)
  with g(3) listed fails show ?thesis by simp
qed

end
